theory Spec2Isabelle
  imports Complex_Main
begin

section \<open>The drowsiness detector of guard\_fatigue\_detection.py\<close>

text \<open>
  The class \<open>DrowsinessDetector\<close> keeps all of its state and all of its tuning constants
  in attributes of one object, and mutates that object once per camera frame.  The
  embedding below is a record with the same attributes, and one function per method, each
  taking the object and returning the updated one.

  What the methods do to the outside world is kept in four further fields:
  \<^item> \<open>audio_calls\<close>: the calls of \<open>_play_beep\<close>, \<open>_play_escalation_beep\<close> and
    \<open>_stop_audio\<close>, in the order in which they are made (the bodies of those three
    methods only talk to the sound device and swallow every failure);
  \<^item> \<open>log_calls\<close>: the event of every call of \<open>_maybe_log_event\<close>, in order, whether or
    not a log path is configured;
  \<^item> \<open>drawn\<close>: the labels passed to \<open>put_text_with_background\<close>, in order;
  \<^item> \<open>files\<close>: the file system as far as \<open>_maybe_log_event\<close> touches it, a map from
    a path to the rows that \<open>csv.writer.writerow\<close> has appended to that file
    (no entry: the file does not exist).

  Python floats are modelled by \<open>real\<close>.  With the constants of \<open>__init__\<close> the fatigue
  score only takes whole values between 0 and 100 (lemma \<open>run_frames_score_whole\<close>), on
  which the float operations of the source are exact.  Clock readings are inputs.
\<close>

datatype audio_call = PlayBeep | PlayEscalationBeep | StopAudio

datatype label = FatigueAlertText | NoFaceAlertText | EarText real | ScoreText real

type_synonym csv_row = "string list"

record detector =
  EAR_THRESH :: real
  CLOSED_EYES_FRAME :: int
  counter :: int
  alert_active :: bool
  last_beep_time :: real
  beep_interval_seconds :: real
  fatigue_score :: real
  fatigue_increase_per_frame :: real
  fatigue_decay_per_frame :: real
  fatigue_alert_threshold :: real
  guard_mode :: bool
  log_path :: "string option"
  last_face_time :: real
  no_face_timeout_seconds :: real
  guard_alert_active :: bool
  guard_escalated :: bool
  escalation_seconds :: real
  audio_calls :: "audio_call list"
  log_calls :: "string list"
  drawn :: "label list"
  files :: "string \<rightharpoonup> csv_row list"

text \<open>
  How the file operations of one call of \<open>_maybe_log_event\<close> end: all succeed, or
  \<open>open\<close> raises (line 243, no file is created), or the \<open>writerow\<close> of the header raises
  (line 246), or the \<open>writerow\<close> of the data row raises (line 247).  In the last two
  cases \<open>open\<close> in append mode has already created the file.  Every exception is
  swallowed by the \<open>except Exception: pass\<close> of line 248.
\<close>

datatype io_outcome = IoOk | OpenRaises | HeaderWriteRaises | RowWriteRaises

text \<open>
  What one frame reads from its environment: the value of each \<open>time.time()\<close> call that
  the frame can make (named by the source line of the call), and, for each of the at most
  two calls of \<open>_maybe_log_event\<close> in a frame, the string that \<open>time.strftime\<close> returns and
  how the file operations of the call end.
\<close>

record env =
  clk_face :: real
  clk_guard :: real
  clk_audio :: real
  clk_esc :: real
  clk_mark :: real
  stamp1 :: string
  io1 :: io_outcome
  stamp2 :: string
  io2 :: io_outcome

text \<open>
  \<open>__init__\<close> (lines 18-66): \<open>gm\<close> and \<open>lp\<close> are the arguments \<open>guard_mode\<close> and
  \<open>log_path\<close>, \<open>t0\<close> is the clock reading of line 57, \<open>fs\<close> the file system at start.
\<close>

definition init :: "bool \<Rightarrow> string option \<Rightarrow> real \<Rightarrow> (string \<rightharpoonup> csv_row list) \<Rightarrow> detector" where
  "init gm lp t0 fs =
     \<lparr> EAR_THRESH = 0.25,
       CLOSED_EYES_FRAME = 20,
       counter = 0,
       alert_active = False,
       last_beep_time = 0,
       beep_interval_seconds = 1,
       fatigue_score = 0,
       fatigue_increase_per_frame = 2,
       fatigue_decay_per_frame = 1,
       fatigue_alert_threshold = 60,
       guard_mode = gm,
       log_path = lp,
       last_face_time = t0,
       no_face_timeout_seconds = 10,
       guard_alert_active = False,
       guard_escalated = False,
       escalation_seconds = 60,
       audio_calls = [],
       log_calls = [],
       drawn = [],
       files = fs \<rparr>"

text \<open>
  \<open>_maybe_log_event\<close> (lines 237-249).  \<open>not self.log_path\<close> holds for \<open>None\<close> and for the
  empty string.  When \<open>open\<close> raises the file system is as it was; when a \<open>writerow\<close>
  raises, the file exists and holds what was written before.  A header write that is not
  attempted (the file existed) cannot raise.
\<close>

definition header_row :: csv_row where
  "header_row = [''timestamp'', ''event'']"

definition maybe_log_event :: "string \<Rightarrow> string \<Rightarrow> io_outcome \<Rightarrow> detector \<Rightarrow> detector" where
  "maybe_log_event event stamp io s =
     (let s0 = s\<lparr>log_calls := log_calls s @ [event]\<rparr> in
      case log_path s0 of
        None \<Rightarrow> s0
      | Some p \<Rightarrow>
          if p = [] then s0
          else
            (let row = [stamp, event];
                 file_exists = (files s0 p \<noteq> None);
                 old = (case files s0 p of None \<Rightarrow> [] | Some rows \<Rightarrow> rows)
             in if io = OpenRaises then s0
                else if \<not> file_exists \<and> io = HeaderWriteRaises
                then s0\<lparr>files := (files s0)(p \<mapsto> old)\<rparr>
                else
                  (let hdr = (if \<not> file_exists then [header_row] else [])
                   in if io = RowWriteRaises
                      then s0\<lparr>files := (files s0)(p \<mapsto> old @ hdr)\<rparr>
                      else s0\<lparr>files := (files s0)(p \<mapsto> old @ hdr @ [row])\<rparr>)))"

text \<open>\<open>_handle_audio_alert\<close> (lines 195-210); \<open>now\<close> is the clock reading of line 207.\<close>

definition handle_audio_alert :: "bool \<Rightarrow> real \<Rightarrow> detector \<Rightarrow> detector" where
  "handle_audio_alert active now s =
     (let s1 = (if active \<and> \<not> alert_active s
                then s\<lparr>alert_active := True, last_beep_time := 0\<rparr> else s)
      in if \<not> active \<and> alert_active s1
         then s1\<lparr>alert_active := False, audio_calls := audio_calls s1 @ [StopAudio]\<rparr>
         else if alert_active s1
         then (if now - last_beep_time s1 \<ge> beep_interval_seconds s1
               then s1\<lparr>audio_calls := audio_calls s1 @ [PlayBeep], last_beep_time := now\<rparr>
               else s1)
         else s1)"

text \<open>\<open>_handle_no_face\<close> (lines 212-235).\<close>

definition handle_no_face :: "env \<Rightarrow> detector \<Rightarrow> detector" where
  "handle_no_face e s =
     (if \<not> guard_mode s then s
      else
        let now = clk_guard e;
            seconds_since_face = now - last_face_time s
        in if seconds_since_face \<ge> no_face_timeout_seconds s
           then
             (let s1 = s\<lparr>drawn := drawn s @ [NoFaceAlertText]\<rparr>;
                  s2 = handle_audio_alert True (clk_audio e) s1;
                  s3 = maybe_log_event ''NO_FACE_ALERT'' (stamp1 e) (io1 e) s2
              in if seconds_since_face \<ge> no_face_timeout_seconds s3 + escalation_seconds s3
                 then
                   (let s4 = (if \<not> guard_escalated s3
                              then maybe_log_event ''ALERT_ESCALATED'' (stamp2 e) (io2 e)
                                     (s3\<lparr>guard_escalated := True\<rparr>)
                              else s3)
                    in if clk_esc e - last_beep_time s4 \<ge> max 0.5 (beep_interval_seconds s4 / 2)
                       then s4\<lparr>audio_calls := audio_calls s4 @ [PlayEscalationBeep],
                               last_beep_time := clk_mark e\<rparr>
                       else s4)
                 else s3)
           else
             (let s1 = (if alert_active s \<or> guard_alert_active s
                        then maybe_log_event ''ALERT_CLEARED'' (stamp1 e) (io1 e) s
                        else s);
                  s2 = s1\<lparr>guard_escalated := False, guard_alert_active := False\<rparr>
              in handle_audio_alert False (clk_audio e) s2))"

text \<open>
  The test of line 119, on the object after the counter and the score of the frame have
  been updated.
\<close>

definition fatigue_alert_condition :: "detector \<Rightarrow> bool" where
  "fatigue_alert_condition s \<longleftrightarrow>
     counter s \<ge> CLOSED_EYES_FRAME s \<or> fatigue_score s \<ge> fatigue_alert_threshold s"

text \<open>
  \<open>process_frame\<close> (lines 90-146).  The landmark detector and the eye aspect ratio are
  inputs: \<open>None\<close> when \<open>results.multi_face_landmarks\<close> is empty, otherwise \<open>Some avg_ear\<close>
  with the value of line 107.
\<close>

definition process_frame :: "real option \<Rightarrow> env \<Rightarrow> detector \<Rightarrow> detector" where
  "process_frame landmarks e s =
     (case landmarks of
        Some avg_ear \<Rightarrow>
          (let s1 = s\<lparr>last_face_time := clk_face e\<rparr>;
               s2 = (if avg_ear < EAR_THRESH s1
                     then
                       (let s' = s1\<lparr>counter := counter s1 + 1,
                                    fatigue_score :=
                                      min 100 (fatigue_score s1 + fatigue_increase_per_frame s1)\<rparr>
                        in if fatigue_alert_condition s'
                           then maybe_log_event ''FATIGUE_ALERT'' (stamp1 e) (io1 e)
                                  (handle_audio_alert True (clk_audio e)
                                     (s'\<lparr>drawn := drawn s' @ [FatigueAlertText]\<rparr>))
                           else s')
                     else
                       handle_audio_alert False (clk_audio e)
                         (s1\<lparr>counter := 0,
                             fatigue_score :=
                               max 0 (fatigue_score s1 - fatigue_decay_per_frame s1)\<rparr>))
           in s2\<lparr>drawn := drawn s2 @ [EarText avg_ear, ScoreText (fatigue_score s2)]\<rparr>)
      | None \<Rightarrow> handle_no_face e s)"

text \<open>
  The loop of \<open>start_detection\<close> (lines 264-274) over the frames that the camera delivers
  before the loop is left.
\<close>

fun run_frames :: "(real option \<times> env) list \<Rightarrow> detector \<Rightarrow> detector" where
  "run_frames [] s = s"
| "run_frames ((landmarks, e) # rest) s = run_frames rest (process_frame landmarks e s)"


subsection \<open>Runs and inputs used in the statements below\<close>

text \<open>A frame is a closed-eye frame when a face is found and line 115 takes its first branch.\<close>

definition closed_eye_frame :: "real \<Rightarrow> real option \<times> env \<Rightarrow> bool" where
  "closed_eye_frame thresh f = (case fst f of Some avg_ear \<Rightarrow> avg_ear < thresh | None \<Rightarrow> False)"

definition open_eye_frame :: "real \<Rightarrow> real option \<times> env \<Rightarrow> bool" where
  "open_eye_frame thresh f = (case fst f of Some avg_ear \<Rightarrow> \<not> avg_ear < thresh | None \<Rightarrow> False)"


text \<open>
  A sequence of calls of \<open>_maybe_log_event\<close>, each with its event, the time stamp that
  \<open>time.strftime\<close> returns and how its file operations end.
\<close>

fun log_events :: "(string \<times> string \<times> io_outcome) list \<Rightarrow> detector \<Rightarrow> detector" where
  "log_events [] s = s"
| "log_events ((event, stamp, io) # rest) s =
     log_events rest (maybe_log_event event stamp io s)"

definition data_row :: "string \<times> string \<times> io_outcome \<Rightarrow> csv_row" where
  "data_row c = (case c of (event, stamp, io) \<Rightarrow> [stamp, event])"

text \<open>
  Concrete inputs: an environment in which every clock call of the frame returns \<open>t\<close> and
  no file operation raises; \<open>n\<close> face frames with EAR 0.1 (below the threshold 0.25 of
  \<open>__init__\<close>) and with EAR 0.3 (above it); the initial detector with the fatigue score
  set to 40, and with \<open>CLOSED_EYES_FRAME\<close> set to 40; and the detector in guard mode,
  started at time 0, at the start and after one no-face frame at 10 s (the no-face alert
  has just been raised).
\<close>

definition quiet_env :: "real \<Rightarrow> env" where
  "quiet_env t =
     \<lparr> clk_face = t, clk_guard = t, clk_audio = t, clk_esc = t, clk_mark = t,
       stamp1 = ''2025-01-01 00:00:00'', io1 = IoOk,
       stamp2 = ''2025-01-01 00:00:00'', io2 = IoOk \<rparr>"

definition closed_frames :: "nat \<Rightarrow> (real option \<times> env) list" where
  "closed_frames n = replicate n (Some 0.1, quiet_env 1)"

definition open_frames :: "nat \<Rightarrow> (real option \<times> env) list" where
  "open_frames n = replicate n (Some 0.3, quiet_env 1)"

definition half_tired :: detector where
  "half_tired = (init False None 0 Map.empty)\<lparr>fatigue_score := 40\<rparr>"

definition debounce40 :: detector where
  "debounce40 = (init False None 0 Map.empty)\<lparr>CLOSED_EYES_FRAME := 40\<rparr>"

definition guard_start :: detector where
  "guard_start = init True None 0 Map.empty"

definition guard_alerting :: detector where
  "guard_alerting = process_frame None (quiet_env 10) guard_start"




definition stalled_frames :: "(real option \<times> env) list" where
  "stalled_frames = [(None, quiet_env 70), (None, quiet_env 71.2)]"

definition escalated_fast :: detector where
  "escalated_fast = run_frames [(None, quiet_env 70)] guard_start"

text \<open>The detector in guard mode with a log path, started at time 0.\<close>

definition guard_logging :: detector where
  "guard_logging = init True (Some ''guard.csv'') 0 Map.empty"

text \<open>Calls of \<open>_maybe_log_event\<close> whose file operations do not raise, and three of them.\<close>

definition io_ok :: "string \<times> string \<times> io_outcome \<Rightarrow> bool" where
  "io_ok c = (case c of (event, stamp, io) \<Rightarrow> io = IoOk)"

definition logging_start :: detector where
  "logging_start = init True (Some ''events.csv'') 0 Map.empty"

definition three_events :: "(string \<times> string \<times> io_outcome) list" where
  "three_events =
     [(''NO_FACE_ALERT'', ''2025-01-01 00:00:10'', IoOk),
      (''ALERT_ESCALATED'', ''2025-01-01 00:01:10'', IoOk),
      (''ALERT_CLEARED'', ''2025-01-01 00:01:12'', IoOk)]"

section \<open>What each method leaves unchanged\<close>

lemma maybe_log_event_fields [simp]:
  "EAR_THRESH (maybe_log_event ev st f s) = EAR_THRESH s"
  "CLOSED_EYES_FRAME (maybe_log_event ev st f s) = CLOSED_EYES_FRAME s"
  "counter (maybe_log_event ev st f s) = counter s"
  "alert_active (maybe_log_event ev st f s) = alert_active s"
  "last_beep_time (maybe_log_event ev st f s) = last_beep_time s"
  "beep_interval_seconds (maybe_log_event ev st f s) = beep_interval_seconds s"
  "fatigue_score (maybe_log_event ev st f s) = fatigue_score s"
  "fatigue_increase_per_frame (maybe_log_event ev st f s) = fatigue_increase_per_frame s"
  "fatigue_decay_per_frame (maybe_log_event ev st f s) = fatigue_decay_per_frame s"
  "fatigue_alert_threshold (maybe_log_event ev st f s) = fatigue_alert_threshold s"
  "guard_mode (maybe_log_event ev st f s) = guard_mode s"
  "log_path (maybe_log_event ev st f s) = log_path s"
  "last_face_time (maybe_log_event ev st f s) = last_face_time s"
  "no_face_timeout_seconds (maybe_log_event ev st f s) = no_face_timeout_seconds s"
  "guard_alert_active (maybe_log_event ev st f s) = guard_alert_active s"
  "guard_escalated (maybe_log_event ev st f s) = guard_escalated s"
  "escalation_seconds (maybe_log_event ev st f s) = escalation_seconds s"
  "audio_calls (maybe_log_event ev st f s) = audio_calls s"
  "drawn (maybe_log_event ev st f s) = drawn s"
  "log_calls (maybe_log_event ev st f s) = log_calls s @ [ev]"
  by (simp_all add: maybe_log_event_def Let_def split: option.split)

lemma handle_audio_alert_fields [simp]:
  "EAR_THRESH (handle_audio_alert a t s) = EAR_THRESH s"
  "CLOSED_EYES_FRAME (handle_audio_alert a t s) = CLOSED_EYES_FRAME s"
  "counter (handle_audio_alert a t s) = counter s"
  "beep_interval_seconds (handle_audio_alert a t s) = beep_interval_seconds s"
  "fatigue_score (handle_audio_alert a t s) = fatigue_score s"
  "fatigue_increase_per_frame (handle_audio_alert a t s) = fatigue_increase_per_frame s"
  "fatigue_decay_per_frame (handle_audio_alert a t s) = fatigue_decay_per_frame s"
  "fatigue_alert_threshold (handle_audio_alert a t s) = fatigue_alert_threshold s"
  "guard_mode (handle_audio_alert a t s) = guard_mode s"
  "log_path (handle_audio_alert a t s) = log_path s"
  "last_face_time (handle_audio_alert a t s) = last_face_time s"
  "no_face_timeout_seconds (handle_audio_alert a t s) = no_face_timeout_seconds s"
  "guard_alert_active (handle_audio_alert a t s) = guard_alert_active s"
  "guard_escalated (handle_audio_alert a t s) = guard_escalated s"
  "escalation_seconds (handle_audio_alert a t s) = escalation_seconds s"
  "log_calls (handle_audio_alert a t s) = log_calls s"
  "drawn (handle_audio_alert a t s) = drawn s"
  "files (handle_audio_alert a t s) = files s"
  "alert_active (handle_audio_alert a t s) = a"
  by (simp_all add: handle_audio_alert_def Let_def)


lemma handle_no_face_config [simp]:
  "EAR_THRESH (handle_no_face e s) = EAR_THRESH s"
  "CLOSED_EYES_FRAME (handle_no_face e s) = CLOSED_EYES_FRAME s"
  "counter (handle_no_face e s) = counter s"
  "beep_interval_seconds (handle_no_face e s) = beep_interval_seconds s"
  "fatigue_score (handle_no_face e s) = fatigue_score s"
  "fatigue_increase_per_frame (handle_no_face e s) = fatigue_increase_per_frame s"
  "fatigue_decay_per_frame (handle_no_face e s) = fatigue_decay_per_frame s"
  "fatigue_alert_threshold (handle_no_face e s) = fatigue_alert_threshold s"
  "guard_mode (handle_no_face e s) = guard_mode s"
  "log_path (handle_no_face e s) = log_path s"
  "last_face_time (handle_no_face e s) = last_face_time s"
  "no_face_timeout_seconds (handle_no_face e s) = no_face_timeout_seconds s"
  "escalation_seconds (handle_no_face e s) = escalation_seconds s"
  by (simp_all add: handle_no_face_def Let_def)

lemma process_frame_config [simp]:
  "EAR_THRESH (process_frame lm e s) = EAR_THRESH s"
  "CLOSED_EYES_FRAME (process_frame lm e s) = CLOSED_EYES_FRAME s"
  "beep_interval_seconds (process_frame lm e s) = beep_interval_seconds s"
  "fatigue_increase_per_frame (process_frame lm e s) = fatigue_increase_per_frame s"
  "fatigue_decay_per_frame (process_frame lm e s) = fatigue_decay_per_frame s"
  "fatigue_alert_threshold (process_frame lm e s) = fatigue_alert_threshold s"
  "guard_mode (process_frame lm e s) = guard_mode s"
  "log_path (process_frame lm e s) = log_path s"
  "no_face_timeout_seconds (process_frame lm e s) = no_face_timeout_seconds s"
  "escalation_seconds (process_frame lm e s) = escalation_seconds s"
  by (simp_all add: process_frame_def Let_def split: option.split)

lemma process_frame_closed:
  assumes "ear < EAR_THRESH s"
  shows "counter (process_frame (Some ear) e s) = counter s + 1"
    and "fatigue_score (process_frame (Some ear) e s) =
           min 100 (fatigue_score s + fatigue_increase_per_frame s)"
  using assms by (simp_all add: process_frame_def Let_def)

lemma process_frame_open:
  assumes "\<not> ear < EAR_THRESH s"
  shows "counter (process_frame (Some ear) e s) = 0"
    and "fatigue_score (process_frame (Some ear) e s) =
           max 0 (fatigue_score s - fatigue_decay_per_frame s)"
  using assms by (simp_all add: process_frame_def Let_def)

lemma process_frame_no_face_score:
  "fatigue_score (process_frame None e s) = fatigue_score s"
  "counter (process_frame None e s) = counter s"
  by (simp_all add: process_frame_def)


section \<open>Runs of frames\<close>

lemma run_frames_append: "run_frames (fs @ gs) s = run_frames gs (run_frames fs s)"
  by (induction fs arbitrary: s) auto

lemma run_frames_config_all:
  "EAR_THRESH (run_frames fs s) = EAR_THRESH s \<and>
   CLOSED_EYES_FRAME (run_frames fs s) = CLOSED_EYES_FRAME s \<and>
   beep_interval_seconds (run_frames fs s) = beep_interval_seconds s \<and>
   fatigue_increase_per_frame (run_frames fs s) = fatigue_increase_per_frame s \<and>
   fatigue_decay_per_frame (run_frames fs s) = fatigue_decay_per_frame s \<and>
   fatigue_alert_threshold (run_frames fs s) = fatigue_alert_threshold s \<and>
   guard_mode (run_frames fs s) = guard_mode s \<and>
   log_path (run_frames fs s) = log_path s \<and>
   no_face_timeout_seconds (run_frames fs s) = no_face_timeout_seconds s \<and>
   escalation_seconds (run_frames fs s) = escalation_seconds s"
proof (induction fs arbitrary: s)
  case Nil
  show ?case by simp
next
  case (Cons f fs)
  obtain lm e where f: "f = (lm, e)" by (cases f)
  show ?case using Cons.IH [of "process_frame lm e s"] by (simp add: f)
qed

lemma run_frames_config [simp]:
  "EAR_THRESH (run_frames fs s) = EAR_THRESH s"
  "CLOSED_EYES_FRAME (run_frames fs s) = CLOSED_EYES_FRAME s"
  "beep_interval_seconds (run_frames fs s) = beep_interval_seconds s"
  "fatigue_increase_per_frame (run_frames fs s) = fatigue_increase_per_frame s"
  "fatigue_decay_per_frame (run_frames fs s) = fatigue_decay_per_frame s"
  "fatigue_alert_threshold (run_frames fs s) = fatigue_alert_threshold s"
  "guard_mode (run_frames fs s) = guard_mode s"
  "log_path (run_frames fs s) = log_path s"
  "no_face_timeout_seconds (run_frames fs s) = no_face_timeout_seconds s"
  "escalation_seconds (run_frames fs s) = escalation_seconds s"
  using run_frames_config_all [of fs s] by simp_all

section \<open>The fatigue scorer over runs of frames\<close>

lemma process_frame_score_range:
  assumes "0 \<le> fatigue_increase_per_frame s" "0 \<le> fatigue_decay_per_frame s"
    and "0 \<le> fatigue_score s" "fatigue_score s \<le> 100"
  shows "0 \<le> fatigue_score (process_frame lm e s) \<and> fatigue_score (process_frame lm e s) \<le> 100"
proof (cases lm)
  case None
  then show ?thesis using assms by (simp add: process_frame_no_face_score)
next
  case (Some ear)
  show ?thesis
  proof (cases "ear < EAR_THRESH s")
    case True
    then show ?thesis using assms Some by (simp add: process_frame_closed)
  next
    case False
    then show ?thesis using assms Some by (simp add: process_frame_open)
  qed
qed

lemma run_frames_score_range:
  assumes "0 \<le> fatigue_increase_per_frame s" "0 \<le> fatigue_decay_per_frame s"
    and "0 \<le> fatigue_score s" "fatigue_score s \<le> 100"
  shows "0 \<le> fatigue_score (run_frames fs s) \<and> fatigue_score (run_frames fs s) \<le> 100"
  using assms
proof (induction fs arbitrary: s)
  case Nil
  then show ?case by simp
next
  case (Cons f fs)
  obtain lm e where f: "f = (lm, e)" by (cases f)
  have "0 \<le> fatigue_score (process_frame lm e s) \<and> fatigue_score (process_frame lm e s) \<le> 100"
    using Cons.prems by (rule process_frame_score_range)
  then show ?case using Cons.IH [of "process_frame lm e s"] Cons.prems(1,2) f by simp
qed

lemma run_closed_frames:
  assumes "list_all (closed_eye_frame (EAR_THRESH s)) fs"
    and "0 \<le> fatigue_increase_per_frame s" "fatigue_score s \<le> 100"
  shows "counter (run_frames fs s) = counter s + int (length fs) \<and>
         fatigue_score (run_frames fs s) =
           min 100 (fatigue_score s + real (length fs) * fatigue_increase_per_frame s)"
  using assms
proof (induction fs arbitrary: s)
  case Nil
  then show ?case by simp
next
  case (Cons f fs)
  from Cons.prems(1) obtain ear e where f: "f = (Some ear, e)" and ear: "ear < EAR_THRESH s"
    by (cases f) (auto simp: closed_eye_frame_def split: option.splits)
  let ?s = "process_frame (Some ear) e s"
  have c: "counter ?s = counter s + 1"
    and sc: "fatigue_score ?s = min 100 (fatigue_score s + fatigue_increase_per_frame s)"
    using ear by (rule process_frame_closed)+
  have "list_all (closed_eye_frame (EAR_THRESH ?s)) fs" using Cons.prems(1) by simp
  moreover have "0 \<le> fatigue_increase_per_frame ?s" using Cons.prems(2) by simp
  moreover have "fatigue_score ?s \<le> 100" using sc by simp
  ultimately have IH: "counter (run_frames fs ?s) = counter ?s + int (length fs) \<and>
         fatigue_score (run_frames fs ?s) =
           min 100 (fatigue_score ?s + real (length fs) * fatigue_increase_per_frame ?s)"
    by (rule Cons.IH)
  have nn: "0 \<le> real (length fs) * fatigue_increase_per_frame s"
    using Cons.prems(2) by simp
  have "min 100 (min 100 (fatigue_score s + fatigue_increase_per_frame s)
          + real (length fs) * fatigue_increase_per_frame s)
        = min 100 (fatigue_score s + (1 + real (length fs)) * fatigue_increase_per_frame s)"
    using nn by (simp only: min_def distrib_right mult_1) (auto; linarith)
  then show ?case using IH c sc f by simp
qed

lemma run_open_frames:
  assumes "list_all (open_eye_frame (EAR_THRESH s)) fs"
    and "0 \<le> fatigue_decay_per_frame s" "0 \<le> fatigue_score s"
  shows "fatigue_score (run_frames fs s) =
           max 0 (fatigue_score s - real (length fs) * fatigue_decay_per_frame s)"
  using assms
proof (induction fs arbitrary: s)
  case Nil
  then show ?case by simp
next
  case (Cons f fs)
  from Cons.prems(1) obtain ear e where f: "f = (Some ear, e)" and ear: "\<not> ear < EAR_THRESH s"
    by (cases f) (auto simp: open_eye_frame_def split: option.splits)
  let ?s = "process_frame (Some ear) e s"
  have sc: "fatigue_score ?s = max 0 (fatigue_score s - fatigue_decay_per_frame s)"
    using ear by (rule process_frame_open)
  have "list_all (open_eye_frame (EAR_THRESH ?s)) fs" using Cons.prems(1) by simp
  moreover have "0 \<le> fatigue_decay_per_frame ?s" using Cons.prems(2) by simp
  moreover have "0 \<le> fatigue_score ?s" using sc by simp
  ultimately have IH: "fatigue_score (run_frames fs ?s) =
           max 0 (fatigue_score ?s - real (length fs) * fatigue_decay_per_frame ?s)"
    by (rule Cons.IH)
  have nn: "0 \<le> real (length fs) * fatigue_decay_per_frame s"
    using Cons.prems(2) by simp
  have "max 0 (max 0 (fatigue_score s - fatigue_decay_per_frame s)
          - real (length fs) * fatigue_decay_per_frame s)
        = max 0 (fatigue_score s - (1 + real (length fs)) * fatigue_decay_per_frame s)"
    using nn by (simp only: max_def distrib_right mult_1) (auto; linarith)
  then show ?case using IH sc f by simp
qed


lemma run_closed_frames_counter:
  assumes "list_all (closed_eye_frame (EAR_THRESH s)) fs"
  shows "counter (run_frames fs s) = counter s + int (length fs)"
  using assms
proof (induction fs arbitrary: s)
  case Nil
  then show ?case by simp
next
  case (Cons f fs)
  from Cons.prems obtain ear e where f: "f = (Some ear, e)" and ear: "ear < EAR_THRESH s"
    by (cases f) (auto simp: closed_eye_frame_def split: option.splits)
  let ?s = "process_frame (Some ear) e s"
  have "list_all (closed_eye_frame (EAR_THRESH ?s)) fs" using Cons.prems by simp
  then have "counter (run_frames fs ?s) = counter ?s + int (length fs)" by (rule Cons.IH)
  then show ?case using process_frame_closed(1) [OF ear, of e] f by simp
qed

lemma closed_frame_condition:
  assumes "ear < EAR_THRESH s"
  shows "fatigue_alert_condition (process_frame (Some ear) e s) \<longleftrightarrow>
           CLOSED_EYES_FRAME s \<le> counter s + 1 \<or>
           fatigue_alert_threshold s \<le> min 100 (fatigue_score s + fatigue_increase_per_frame s)"
  using assms by (simp add: fatigue_alert_condition_def process_frame_closed)

lemma closed_frame_alerting:
  assumes "ear < EAR_THRESH s" "fatigue_alert_condition (process_frame (Some ear) e s)"
  shows "alert_active (process_frame (Some ear) e s)"
    and "log_calls (process_frame (Some ear) e s) = log_calls s @ [''FATIGUE_ALERT'']"
proof -
  have c: "CLOSED_EYES_FRAME s \<le> counter s + 1 \<or>
           fatigue_alert_threshold s \<le> min 100 (fatigue_score s + fatigue_increase_per_frame s)"
    using assms closed_frame_condition by blast
  show "alert_active (process_frame (Some ear) e s)"
    using assms(1) c by (simp add: process_frame_def Let_def fatigue_alert_condition_def)
  show "log_calls (process_frame (Some ear) e s) = log_calls s @ [''FATIGUE_ALERT'']"
    using assms(1) c by (simp add: process_frame_def Let_def fatigue_alert_condition_def)
qed

lemma closed_frame_not_alerting:
  assumes "ear < EAR_THRESH s" "\<not> fatigue_alert_condition (process_frame (Some ear) e s)"
  shows "alert_active (process_frame (Some ear) e s) = alert_active s"
    and "log_calls (process_frame (Some ear) e s) = log_calls s"
    and "audio_calls (process_frame (Some ear) e s) = audio_calls s"
proof -
  let ?s' = "s\<lparr>last_face_time := clk_face e, counter := counter s + 1,
     fatigue_score := min 100 (fatigue_score s + fatigue_increase_per_frame s)\<rparr>"
  have "\<not> fatigue_alert_condition ?s'"
    using assms closed_frame_condition [of ear s e] by (simp add: fatigue_alert_condition_def)
  then have eq: "process_frame (Some ear) e s =
      ?s'\<lparr>drawn := drawn ?s' @ [EarText ear, ScoreText (fatigue_score ?s')]\<rparr>"
    using assms(1) by (simp add: process_frame_def Let_def)
  show "alert_active (process_frame (Some ear) e s) = alert_active s"
    by (simp add: eq)
  show "log_calls (process_frame (Some ear) e s) = log_calls s"
    by (simp add: eq)
  show "audio_calls (process_frame (Some ear) e s) = audio_calls s"
    by (simp add: eq)
qed

lemma closed_run_last:
  assumes "list_all (closed_eye_frame (EAR_THRESH s)) fs" "fs \<noteq> []"
  obtains ear e where "last fs = (Some ear, e)" "ear < EAR_THRESH (run_frames (butlast fs) s)"
    "run_frames fs s = process_frame (Some ear) e (run_frames (butlast fs) s)"
proof -
  have "closed_eye_frame (EAR_THRESH s) (last fs)"
    using assms by (simp add: list_all_iff)
  then obtain ear e where l: "last fs = (Some ear, e)" and ear: "ear < EAR_THRESH s"
    by (cases "last fs") (auto simp: closed_eye_frame_def split: option.splits)
  have "run_frames fs s = run_frames (butlast fs @ [last fs]) s"
    using assms(2) by simp
  also have "\<dots> = process_frame (Some ear) e (run_frames (butlast fs) s)"
    by (simp only: run_frames_append l run_frames.simps)
  finally show ?thesis using that l ear by simp
qed


section \<open>The audio alert controller\<close>

text \<open>
  Claim C4 says that a rising edge followed on the next frame by a falling edge, less than
  \<open>beep_interval_seconds\<close> later, calls stop-playback once and never calls play.  The
  rising edge sets \<open>last_beep_time\<close> to 0 and the same call goes on to the cadence test
  of line 208, which compares the clock itself with the interval: the beep is played on the
  rising-edge frame.  Here the alert rises at clock 1000 and falls at clock 1000.5.
\<close>

theorem rising_edge_plays_beep_counterexample:
  "\<not> alert_active (init False None 0 Map.empty) \<and>
   alert_active (handle_audio_alert True 1000 (init False None 0 Map.empty)) \<and>
   1000.5 - 1000 < beep_interval_seconds (init False None 0 Map.empty) \<and>
   audio_calls (handle_audio_alert False 1000.5
                  (handle_audio_alert True 1000 (init False None 0 Map.empty)))
     = [PlayBeep, StopAudio]"
  by (simp add: handle_audio_alert_def init_def)

text \<open>
  Claim C4, amended: a rising edge followed on the next frame by a falling edge calls
  stop-playback exactly once, on the falling-edge frame, and calls play exactly once, on
  the rising-edge frame, when the clock reading of that frame is at least
  \<open>beep_interval_seconds\<close> (and not at all otherwise); the time between the two frames
  plays no role, and the alert is inactive afterwards.
\<close>

theorem rising_then_falling_edge_audio:
  assumes "\<not> alert_active s"
  shows "audio_calls (handle_audio_alert False t2 (handle_audio_alert True t1 s)) =
           audio_calls s @ (if beep_interval_seconds s \<le> t1 then [PlayBeep] else []) @ [StopAudio]
         \<and> \<not> alert_active (handle_audio_alert False t2 (handle_audio_alert True t1 s))"
  using assms by (simp add: handle_audio_alert_def)

theorem rising_then_falling_edge_audio_witness:
  "\<not> alert_active (init False None 0 Map.empty) \<and>
   audio_calls (handle_audio_alert False 1000.5
                  (handle_audio_alert True 1000 (init False None 0 Map.empty)))
     = [PlayBeep, StopAudio] \<and>
   \<not> alert_active (handle_audio_alert False 1000.5
                  (handle_audio_alert True 1000 (init False None 0 Map.empty)))"
  using rising_then_falling_edge_audio [of "init False None 0 Map.empty" "1000.5" 1000]
  by (simp add: init_def)

text \<open>
  Claim C2 says that every face frame on which the fatigue alert condition is false drives
  the controller with \<open>active=false\<close>.  Line 128 does so only in the open-eye branch.
  After a no-face alert (detector \<open>guard_alerting\<close>, alert active, one beep played) a
  closed-eye frame with counter 1 and score 2 has the condition false, and the alert stays
  active with no stop-playback call.
\<close>

theorem closed_eye_frame_keeps_alert_counterexample:
  "alert_active guard_alerting \<and>
   audio_calls guard_alerting = [PlayBeep] \<and>
   \<not> fatigue_alert_condition (process_frame (Some 0.1) (quiet_env 11) guard_alerting) \<and>
   alert_active (process_frame (Some 0.1) (quiet_env 11) guard_alerting) \<and>
   audio_calls (process_frame (Some 0.1) (quiet_env 11) guard_alerting) = [PlayBeep]"
  by (simp add: guard_alerting_def guard_start_def process_frame_def handle_no_face_def
      handle_audio_alert_def maybe_log_event_def fatigue_alert_condition_def init_def
      quiet_env_def Let_def)

text \<open>
  Claim C2, amended: on every face frame whose EAR is not below \<open>EAR_THRESH\<close> (whatever
  the score) the controller is driven with \<open>active=false\<close>, so the alert is inactive
  afterwards and a previously active alert takes its falling edge, with one stop-playback
  call, on that frame.  On a face frame whose EAR is below \<open>EAR_THRESH\<close> and on which the
  fatigue alert condition is false, the controller is not driven: the alert flag and the
  audio calls stay as they were.
\<close>

theorem face_frame_audio_drive:
  "(\<not> avg_ear < EAR_THRESH s \<longrightarrow>
      \<not> alert_active (process_frame (Some avg_ear) e s) \<and>
      audio_calls (process_frame (Some avg_ear) e s) =
        audio_calls s @ (if alert_active s then [StopAudio] else [])) \<and>
   (avg_ear < EAR_THRESH s \<and> \<not> fatigue_alert_condition (process_frame (Some avg_ear) e s) \<longrightarrow>
      alert_active (process_frame (Some avg_ear) e s) = alert_active s \<and>
      audio_calls (process_frame (Some avg_ear) e s) = audio_calls s)"
  by (simp add: process_frame_def Let_def fatigue_alert_condition_def handle_audio_alert_def)

theorem face_frame_audio_drive_witness:
  "\<not> 0.3 < EAR_THRESH guard_alerting \<and>
   alert_active guard_alerting \<and>
   \<not> alert_active (process_frame (Some 0.3) (quiet_env 11) guard_alerting) \<and>
   audio_calls (process_frame (Some 0.3) (quiet_env 11) guard_alerting) =
     audio_calls guard_alerting @ [StopAudio] \<and>
   0.1 < EAR_THRESH guard_alerting \<and>
   \<not> fatigue_alert_condition (process_frame (Some 0.1) (quiet_env 11) guard_alerting) \<and>
   alert_active (process_frame (Some 0.1) (quiet_env 11) guard_alerting) \<and>
   audio_calls (process_frame (Some 0.1) (quiet_env 11) guard_alerting) =
     audio_calls guard_alerting"
proof -
  have thr: "EAR_THRESH guard_alerting = 0.25"
    by (simp add: guard_alerting_def guard_start_def init_def)
  have act: "alert_active guard_alerting"
    by (simp add: guard_alerting_def guard_start_def process_frame_def handle_no_face_def
        init_def quiet_env_def Let_def)
  have cond: "\<not> fatigue_alert_condition (process_frame (Some 0.1) (quiet_env 11) guard_alerting)"
    by (simp add: closed_frame_condition thr)
       (simp add: guard_alerting_def guard_start_def init_def process_frame_no_face_score)
  show ?thesis
    using face_frame_audio_drive [of "0.3" guard_alerting "quiet_env 11"]
      face_frame_audio_drive [of "0.1" guard_alerting "quiet_env 11"] thr act cond
    by simp
qed

section \<open>The debounce of the fatigue scorer\<close>

text \<open>
  Claim C7: when the EAR is below \<open>EAR_THRESH\<close> on \<open>CLOSED_EYES_FRAME\<close> consecutive face
  frames (or more), whatever the EAR values and whatever the fatigue score at the start,
  the fatigue alert condition holds on the last of those frames: the test of line 119
  succeeds there, the audio alert is driven active and \<open>FATIGUE_ALERT\<close> is logged by that
  frame.  The counter is never negative in the source; it starts at 0 and is only
  incremented or reset to 0.
\<close>

theorem debounce_triggers_fatigue_alert:
  assumes "list_all (closed_eye_frame (EAR_THRESH s)) fs" "fs \<noteq> []"
    and "CLOSED_EYES_FRAME s \<le> int (length fs)" "0 \<le> counter s"
  shows "fatigue_alert_condition (run_frames fs s) \<and>
         alert_active (run_frames fs s) \<and>
         log_calls (run_frames fs s) = log_calls (run_frames (butlast fs) s) @ [''FATIGUE_ALERT'']"
proof -
  obtain ear e where ear: "ear < EAR_THRESH (run_frames (butlast fs) s)"
    and run: "run_frames fs s = process_frame (Some ear) e (run_frames (butlast fs) s)"
    using assms(1,2) by (rule closed_run_last)
  have "counter (run_frames fs s) = counter s + int (length fs)"
    using assms(1) by (rule run_closed_frames_counter)
  then have cond: "fatigue_alert_condition (run_frames fs s)"
    using assms(3,4) by (simp add: fatigue_alert_condition_def)
  then have "fatigue_alert_condition (process_frame (Some ear) e (run_frames (butlast fs) s))"
    by (simp only: run)
  from closed_frame_alerting [OF ear this] cond show ?thesis by (simp only: run simp_thms)
qed


theorem debounce_triggers_fatigue_alert_witness:
  "list_all (closed_eye_frame (EAR_THRESH (init False None 0 Map.empty))) (closed_frames 20) \<and>
   closed_frames 20 \<noteq> [] \<and>
   CLOSED_EYES_FRAME (init False None 0 Map.empty) \<le> int (length (closed_frames 20)) \<and>
   0 \<le> counter (init False None 0 Map.empty) \<and>
   fatigue_alert_condition (run_frames (closed_frames 20) (init False None 0 Map.empty)) \<and>
   alert_active (run_frames (closed_frames 20) (init False None 0 Map.empty))"
proof -
  have h1: "list_all (closed_eye_frame (EAR_THRESH (init False None 0 Map.empty)))
     (closed_frames 20)"
    by (simp add: list_all_iff closed_eye_frame_def closed_frames_def init_def)
  have h2: "closed_frames 20 \<noteq> []"
    by (simp add: closed_frames_def)
  have h3: "CLOSED_EYES_FRAME (init False None 0 Map.empty) \<le> int (length (closed_frames 20))"
    by (simp add: init_def closed_frames_def)
  have h4: "0 \<le> counter (init False None 0 Map.empty)"
    by (simp add: init_def)
  from debounce_triggers_fatigue_alert [OF h1 h2 h3 h4] h1 h2 h3 h4
  show ?thesis by blast
qed

section \<open>The fatigue score\<close>

text \<open>
  With the rates of \<open>__init__\<close> the score is a whole number between 0 and 100 after every
  run of frames from the initial object.
\<close>

lemma process_frame_score_whole:
  assumes "fatigue_increase_per_frame s = 2" "fatigue_decay_per_frame s = 1"
    and "fatigue_score s \<in> \<nat>"
  shows "fatigue_score (process_frame lm e s) \<in> \<nat>"
proof (cases lm)
  case None
  then show ?thesis using assms by (simp add: process_frame_no_face_score)
next
  case (Some ear)
  from assms(3) obtain n :: nat where n: "fatigue_score s = real n"
    by (auto simp: Nats_def)
  show ?thesis
  proof (cases "ear < EAR_THRESH s")
    case True
    have "min 100 (real n + 2) = real (min 100 (n + 2))" by simp
    then show ?thesis using True Some assms(1) n
      by (simp only: process_frame_closed(2) [OF True] of_nat_in_Nats)
  next
    case False
    have "max 0 (real n - 1) = real (n - 1)" by (cases n) simp_all
    then show ?thesis using False Some assms(2) n
      by (simp only: process_frame_open(2) [OF False] of_nat_in_Nats)
  qed
qed

lemma run_frames_score_whole_gen:
  assumes "fatigue_increase_per_frame s = 2" "fatigue_decay_per_frame s = 1"
    and "fatigue_score s \<in> \<nat>"
  shows "fatigue_score (run_frames fs s) \<in> \<nat>"
  using assms
proof (induction fs arbitrary: s)
  case Nil
  then show ?case by simp
next
  case (Cons f fs)
  obtain lm e where f: "f = (lm, e)" by (cases f)
  have "fatigue_score (process_frame lm e s) \<in> \<nat>"
    using Cons.prems by (rule process_frame_score_whole)
  then have "fatigue_score (run_frames fs (process_frame lm e s)) \<in> \<nat>"
    using Cons.prems(1,2) by (intro Cons.IH) simp_all
  then show ?case by (simp add: f)
qed

lemma run_frames_score_whole:
  "fatigue_score (run_frames fs (init gm lp t0 fs0)) \<in> \<nat> \<and>
   fatigue_score (run_frames fs (init gm lp t0 fs0)) \<le> 100"
proof -
  have "fatigue_score (run_frames fs (init gm lp t0 fs0)) \<in> \<nat>"
    by (rule run_frames_score_whole_gen) (simp_all add: init_def)
  moreover have "fatigue_score (run_frames fs (init gm lp t0 fs0)) \<le> 100"
    using run_frames_score_range [of "init gm lp t0 fs0" fs] by (simp add: init_def)
  ultimately show ?thesis by simp
qed


text \<open>
  Claim C6: with positive rates and a score that starts in \<open>[0, 100]\<close> (as after
  \<open>__init__\<close>), the score is in \<open>[0, 100]\<close> after every frame of every run; after an
  unbroken run of closed-eye frames that is long enough (the distance to 100 divided by
  the increase, rounded up) it is exactly 100, also after every longer such run; after an
  unbroken run of open-eye frames that is long enough it is exactly 0, and after every
  longer one.
\<close>

theorem fatigue_score_clamped:
  assumes "0 < fatigue_increase_per_frame s" "0 < fatigue_decay_per_frame s"
    and "0 \<le> fatigue_score s" "fatigue_score s \<le> 100"
  shows "(0 \<le> fatigue_score (run_frames fs s) \<and> fatigue_score (run_frames fs s) \<le> 100) \<and>
         (list_all (closed_eye_frame (EAR_THRESH s)) cs \<and>
          nat \<lceil>(100 - fatigue_score s) / fatigue_increase_per_frame s\<rceil> \<le> length cs \<longrightarrow>
            fatigue_score (run_frames cs s) = 100) \<and>
         (list_all (open_eye_frame (EAR_THRESH s)) os \<and>
          nat \<lceil>fatigue_score s / fatigue_decay_per_frame s\<rceil> \<le> length os \<longrightarrow>
            fatigue_score (run_frames os s) = 0)"
proof (intro conjI impI)
  show "0 \<le> fatigue_score (run_frames fs s)" "fatigue_score (run_frames fs s) \<le> 100"
    using run_frames_score_range [of s fs] assms by simp_all
next
  assume h: "list_all (closed_eye_frame (EAR_THRESH s)) cs \<and>
          nat \<lceil>(100 - fatigue_score s) / fatigue_increase_per_frame s\<rceil> \<le> length cs"
  then have "(100 - fatigue_score s) / fatigue_increase_per_frame s \<le> real (length cs)"
    by linarith
  then have "100 - fatigue_score s \<le> real (length cs) * fatigue_increase_per_frame s"
    using assms(1) by (simp add: pos_divide_le_eq)
  moreover have "fatigue_score (run_frames cs s) =
           min 100 (fatigue_score s + real (length cs) * fatigue_increase_per_frame s)"
    using run_closed_frames [of s cs] h assms by simp
  ultimately show "fatigue_score (run_frames cs s) = 100" by simp
next
  assume h: "list_all (open_eye_frame (EAR_THRESH s)) os \<and>
          nat \<lceil>fatigue_score s / fatigue_decay_per_frame s\<rceil> \<le> length os"
  then have "fatigue_score s / fatigue_decay_per_frame s \<le> real (length os)"
    by linarith
  then have "fatigue_score s \<le> real (length os) * fatigue_decay_per_frame s"
    using assms(2) by (simp add: pos_divide_le_eq)
  moreover have "fatigue_score (run_frames os s) =
           max 0 (fatigue_score s - real (length os) * fatigue_decay_per_frame s)"
    using run_open_frames [of s os] h assms by simp
  ultimately show "fatigue_score (run_frames os s) = 0" by simp
qed

theorem fatigue_score_clamped_witness:
  "0 < fatigue_increase_per_frame half_tired \<and>
   0 < fatigue_decay_per_frame half_tired \<and>
   0 \<le> fatigue_score half_tired \<and> fatigue_score half_tired \<le> 100 \<and>
   0 \<le> fatigue_score (run_frames (closed_frames 3 @ open_frames 2) half_tired) \<and>
   fatigue_score (run_frames (closed_frames 3 @ open_frames 2) half_tired) \<le> 100 \<and>
   list_all (closed_eye_frame (EAR_THRESH half_tired)) (closed_frames 30) \<and>
   nat \<lceil>(100 - fatigue_score half_tired) / fatigue_increase_per_frame half_tired\<rceil>
     \<le> length (closed_frames 30) \<and>
   fatigue_score (run_frames (closed_frames 30) half_tired) = 100 \<and>
   list_all (open_eye_frame (EAR_THRESH half_tired)) (open_frames 40) \<and>
   nat \<lceil>fatigue_score half_tired / fatigue_decay_per_frame half_tired\<rceil>
     \<le> length (open_frames 40) \<and>
   fatigue_score (run_frames (open_frames 40) half_tired) = 0"
proof -
  have h: "0 < fatigue_increase_per_frame half_tired" "0 < fatigue_decay_per_frame half_tired"
    "0 \<le> fatigue_score half_tired" "fatigue_score half_tired \<le> 100"
    by (simp_all add: half_tired_def init_def)
  have c: "list_all (closed_eye_frame (EAR_THRESH half_tired)) (closed_frames 30)"
    by (simp add: list_all_iff closed_eye_frame_def closed_frames_def half_tired_def init_def)
  have cn: "nat \<lceil>(100 - fatigue_score half_tired) / fatigue_increase_per_frame half_tired\<rceil>
     \<le> length (closed_frames 30)"
    by (simp add: closed_frames_def half_tired_def init_def)
  have o: "list_all (open_eye_frame (EAR_THRESH half_tired)) (open_frames 40)"
    by (simp add: list_all_iff open_eye_frame_def open_frames_def half_tired_def init_def)
  have on: "nat \<lceil>fatigue_score half_tired / fatigue_decay_per_frame half_tired\<rceil>
     \<le> length (open_frames 40)"
    by (simp add: open_frames_def half_tired_def init_def)
  from fatigue_score_clamped [OF h, of "closed_frames 3 @ open_frames 2" "closed_frames 30" "open_frames 40"]
    h c cn o on
  show ?thesis by blast
qed


text \<open>
  Closed-eye frames from score 0 and counter 0, with increase 2, threshold 60 and a
  debounce of 40: fewer than 30 of them raise no alert.
\<close>

lemma closed_run_quiet:
  assumes "fatigue_increase_per_frame s = 2" "fatigue_alert_threshold s = 60"
    and "CLOSED_EYES_FRAME s = 40" "fatigue_score s = 0" "counter s = 0"
    and "list_all (closed_eye_frame (EAR_THRESH s)) fs" "length fs < 30"
  shows "\<not> fatigue_alert_condition (run_frames fs s) \<and> log_calls (run_frames fs s) = log_calls s \<and>
    audio_calls (run_frames fs s) = audio_calls s \<and> alert_active (run_frames fs s) = alert_active s"
  using assms(6,7)
proof (induction fs rule: rev_induct)
  case Nil
  then show ?case using assms(1-5) by (simp add: fatigue_alert_condition_def)
next
  case (snoc f fs)
  have cl: "list_all (closed_eye_frame (EAR_THRESH s)) fs" and len: "length fs < 29"
    using snoc.prems by simp_all
  then have IH: "log_calls (run_frames fs s) = log_calls s"
    "audio_calls (run_frames fs s) = audio_calls s"
    "alert_active (run_frames fs s) = alert_active s"
    using snoc.IH by simp_all
  from snoc.prems(1) obtain ear e where f: "f = (Some ear, e)" and ear: "ear < EAR_THRESH s"
    by (cases f) (auto simp: closed_eye_frame_def split: option.splits)
  let ?s = "run_frames fs s"
  have st: "counter ?s = int (length fs)" "fatigue_score ?s = min 100 (2 * real (length fs))"
    using run_closed_frames [of s fs] cl assms(1,4,5) by (simp_all add: mult.commute)
  have ear': "ear < EAR_THRESH ?s" using ear by simp
  have run: "run_frames (fs @ [f]) s = process_frame (Some ear) e ?s"
    by (simp add: run_frames_append f)
  have "real (length fs) < 29" using len by simp
  then have ncond: "\<not> fatigue_alert_condition (process_frame (Some ear) e ?s)"
    using len st assms(1,2,3) by (simp add: closed_frame_condition [OF ear'])
  from closed_frame_not_alerting [OF ear' ncond] ncond IH show ?case
    by (simp only: run simp_thms)
qed


text \<open>
  Claim C8: with increase 2, decay 1, threshold 60 and a debounce of 40, from score 0 and
  counter 0, 30 consecutive closed-eye frames give score 60 and counter 30; the counter
  branch of line 119 is false (30 is below 40), the score branch is true, the alert is
  driven active and \<open>FATIGUE_ALERT\<close> is logged, by the 30th frame and by none before: after
  fewer than 30 such frames the condition is false and nothing has been logged or played.
\<close>

theorem thirty_closed_frames_score_path:
  assumes "fatigue_increase_per_frame s = 2" "fatigue_decay_per_frame s = 1"
    and "fatigue_alert_threshold s = 60" "CLOSED_EYES_FRAME s = 40"
    and "fatigue_score s = 0" "counter s = 0"
    and "list_all (closed_eye_frame (EAR_THRESH s)) fs"
  shows "(length fs = 30 \<longrightarrow>
            fatigue_score (run_frames fs s) = 60 \<and>
            counter (run_frames fs s) = 30 \<and>
            \<not> CLOSED_EYES_FRAME (run_frames fs s) \<le> counter (run_frames fs s) \<and>
            fatigue_alert_threshold (run_frames fs s) \<le> fatigue_score (run_frames fs s) \<and>
            fatigue_alert_condition (run_frames fs s) \<and>
            alert_active (run_frames fs s) \<and>
            log_calls (run_frames fs s) = log_calls s @ [''FATIGUE_ALERT'']) \<and>
         (length fs < 30 \<longrightarrow>
            \<not> fatigue_alert_condition (run_frames fs s) \<and>
            log_calls (run_frames fs s) = log_calls s \<and>
            audio_calls (run_frames fs s) = audio_calls s)"
proof (intro conjI impI)
  assume len: "length fs = 30"
  then have ne: "fs \<noteq> []" by auto
  have st: "counter (run_frames fs s) = 30" "fatigue_score (run_frames fs s) = 60"
    using run_closed_frames [of s fs] assms(1,5,6,7) len by simp_all
  show "fatigue_score (run_frames fs s) = 60" "counter (run_frames fs s) = 30"
    using st by simp_all
  show "\<not> CLOSED_EYES_FRAME (run_frames fs s) \<le> counter (run_frames fs s)"
    using st assms(4) by simp
  show "fatigue_alert_threshold (run_frames fs s) \<le> fatigue_score (run_frames fs s)"
    using st assms(3) by simp
  then show cond: "fatigue_alert_condition (run_frames fs s)"
    by (simp add: fatigue_alert_condition_def)
  obtain ear e where ear: "ear < EAR_THRESH (run_frames (butlast fs) s)"
    and run: "run_frames fs s = process_frame (Some ear) e (run_frames (butlast fs) s)"
    using assms(7) ne by (rule closed_run_last)
  have cond': "fatigue_alert_condition (process_frame (Some ear) e (run_frames (butlast fs) s))"
    using cond by (simp only: run)
  have "list_all (closed_eye_frame (EAR_THRESH s)) (butlast fs)"
    using assms(7) by (auto simp: list_all_iff dest: in_set_butlastD)
  moreover have "length (butlast fs) < 30" using len by simp
  ultimately have q: "log_calls (run_frames (butlast fs) s) = log_calls s"
    using closed_run_quiet [OF assms(1,3,4,5,6)] by blast
  from closed_frame_alerting [OF ear cond'] q
  show "alert_active (run_frames fs s)" "log_calls (run_frames fs s) = log_calls s @ [''FATIGUE_ALERT'']"
    by (simp_all only: run)
next
  assume "length fs < 30"
  with closed_run_quiet [OF assms(1,3,4,5,6,7)]
  show "\<not> fatigue_alert_condition (run_frames fs s)" "log_calls (run_frames fs s) = log_calls s"
    "audio_calls (run_frames fs s) = audio_calls s"
    by blast+
qed

theorem thirty_closed_frames_score_path_witness:
  "fatigue_increase_per_frame debounce40 = 2 \<and> fatigue_decay_per_frame debounce40 = 1 \<and>
   fatigue_alert_threshold debounce40 = 60 \<and> CLOSED_EYES_FRAME debounce40 = 40 \<and>
   fatigue_score debounce40 = 0 \<and> counter debounce40 = 0 \<and>
   list_all (closed_eye_frame (EAR_THRESH debounce40)) (closed_frames 30) \<and>
   length (closed_frames 30) = 30 \<and>
   fatigue_score (run_frames (closed_frames 30) debounce40) = 60 \<and>
   counter (run_frames (closed_frames 30) debounce40) = 30 \<and>
   fatigue_alert_condition (run_frames (closed_frames 30) debounce40) \<and>
   alert_active (run_frames (closed_frames 30) debounce40) \<and>
   log_calls (run_frames (closed_frames 30) debounce40) = [''FATIGUE_ALERT''] \<and>
   list_all (closed_eye_frame (EAR_THRESH debounce40)) (closed_frames 29) \<and>
   length (closed_frames 29) < 30 \<and>
   \<not> fatigue_alert_condition (run_frames (closed_frames 29) debounce40) \<and>
   log_calls (run_frames (closed_frames 29) debounce40) = []"
proof -
  have h: "fatigue_increase_per_frame debounce40 = 2" "fatigue_decay_per_frame debounce40 = 1"
    "fatigue_alert_threshold debounce40 = 60" "CLOSED_EYES_FRAME debounce40 = 40"
    "fatigue_score debounce40 = 0" "counter debounce40 = 0"
    by (simp_all add: debounce40_def init_def)
  have l: "log_calls debounce40 = []"
    by (simp add: debounce40_def init_def)
  have c: "list_all (closed_eye_frame (EAR_THRESH debounce40)) (closed_frames n)" for n
    by (simp add: list_all_iff closed_eye_frame_def closed_frames_def debounce40_def init_def)
  have n: "length (closed_frames 30) = 30" "length (closed_frames 29) < 30"
    by (simp_all add: closed_frames_def)
  from thirty_closed_frames_score_path [OF h c, of 30] thirty_closed_frames_score_path [OF h c, of 29] h c n l
  show ?thesis by simp
qed


section \<open>The guard presence monitor\<close>









text \<open>
  Claim C3 says that on a frame processed while escalated the normal beep is not played.
  Line 219 drives the controller as for every alerting frame before the escalation tone is
  considered, and both share \<open>last_beep_time\<close>.  With no-face frames at 70 s and 71.2 s
  the second frame is processed while escalated, plays the normal beep (1.2 s have
  passed) and then no escalation tone (the throttle has just been set).
\<close>

theorem escalated_frame_normal_beep_counterexample:
  "guard_escalated (run_frames [(None, quiet_env 70)] guard_start) \<and>
   no_face_timeout_seconds guard_start + escalation_seconds guard_start
     \<le> clk_guard (quiet_env 71.2) - last_face_time (run_frames [(None, quiet_env 70)] guard_start) \<and>
   audio_calls (run_frames [(None, quiet_env 70)] guard_start) = [PlayBeep] \<and>
   audio_calls (run_frames stalled_frames guard_start) = [PlayBeep, PlayBeep]"
  by (simp add: stalled_frames_def guard_start_def process_frame_def handle_no_face_def
      handle_audio_alert_def maybe_log_event_def init_def quiet_env_def Let_def)

text \<open>
  Claim C3, amended: on every frame processed while escalated the controller is first
  driven with \<open>active=true\<close> as on every alerting frame, so the normal beep is played when
  the alert has just become active or at least \<open>beep_interval_seconds\<close> have passed since
  the last beep of either kind; then the escalation tone is played when at least
  \<open>max(0.5, beep_interval_seconds / 2)\<close> seconds have passed since the last beep, a normal
  beep of this frame included.  In particular, when the alert is already active and less
  than \<open>beep_interval_seconds\<close> have passed since the last beep, the normal beep is not
  played, and the escalation tone is played, and restarts the throttle, exactly when
  \<open>max(0.5, beep_interval_seconds / 2)\<close> seconds have passed since the last beep.
\<close>

theorem escalated_frame_audio:
  assumes "guard_mode s" "0 \<le> escalation_seconds s"
    and "no_face_timeout_seconds s + escalation_seconds s \<le> clk_guard e - last_face_time s"
  shows
    "audio_calls (process_frame None e s) =
       (let throttle0 = (if alert_active s then last_beep_time s else 0);
            normal = (beep_interval_seconds s \<le> clk_audio e - throttle0);
            throttle1 = (if normal then clk_audio e else throttle0);
            tone = (max 0.5 (beep_interval_seconds s / 2) \<le> clk_esc e - throttle1)
        in audio_calls s @ (if normal then [PlayBeep] else []) @
           (if tone then [PlayEscalationBeep] else [])) \<and>
     (alert_active s \<and> clk_audio e - last_beep_time s < beep_interval_seconds s \<longrightarrow>
        audio_calls (process_frame None e s) =
          audio_calls s @
          (if max 0.5 (beep_interval_seconds s / 2) \<le> clk_esc e - last_beep_time s
           then [PlayEscalationBeep] else []) \<and>
        last_beep_time (process_frame None e s) =
          (if max 0.5 (beep_interval_seconds s / 2) \<le> clk_esc e - last_beep_time s
           then clk_mark e else last_beep_time s))"
proof -
  have a: "no_face_timeout_seconds s \<le> clk_guard e - last_face_time s"
    using assms(2,3) by simp
  show ?thesis
    using assms(1,3) a
    by (simp add: process_frame_def handle_no_face_def handle_audio_alert_def Let_def)
qed

theorem escalated_frame_audio_witness:
  "guard_mode escalated_fast \<and> 0 \<le> escalation_seconds escalated_fast \<and>
   no_face_timeout_seconds escalated_fast + escalation_seconds escalated_fast
     \<le> clk_guard (quiet_env 70.5) - last_face_time escalated_fast \<and>
   alert_active escalated_fast \<and>
   clk_audio (quiet_env 70.5) - last_beep_time escalated_fast < beep_interval_seconds escalated_fast \<and>
   audio_calls (process_frame None (quiet_env 70.5) escalated_fast) =
     audio_calls escalated_fast @ [PlayEscalationBeep] \<and>
   last_beep_time (process_frame None (quiet_env 70.5) escalated_fast) = 70.5"
proof -
  have st: "guard_mode escalated_fast" "escalation_seconds escalated_fast = 60"
    "no_face_timeout_seconds escalated_fast = 10" "last_face_time escalated_fast = 0"
    "beep_interval_seconds escalated_fast = 1"
    by (simp_all add: escalated_fast_def guard_start_def init_def process_frame_def)
  have dyn: "alert_active escalated_fast" "last_beep_time escalated_fast = 70"
    by (simp_all add: escalated_fast_def guard_start_def init_def process_frame_def
        handle_no_face_def handle_audio_alert_def quiet_env_def Let_def)
  have clk: "clk_guard (quiet_env t) = t" "clk_audio (quiet_env t) = t"
    "clk_esc (quiet_env t) = t" "clk_mark (quiet_env t) = t" for t
    by (simp_all add: quiet_env_def)
  from escalated_frame_audio [of escalated_fast "quiet_env 70.5"] st dyn
  show ?thesis by (simp add: clk)
qed

text \<open>
  After a face frame with open eyes, a no-face frame below the timeout logs nothing: the
  face frame has cleared \<open>alert_active\<close>, and \<open>guard_alert_active\<close> is never set.  The
  face frame leaves \<open>guard_escalated\<close> as it was.
\<close>

lemma face_return_never_cleared:
  assumes "guard_mode s" "\<not> guard_alert_active s" "\<not> ear < EAR_THRESH s"
    and "clk_guard e2 - clk_face e1 < no_face_timeout_seconds s"
  shows "guard_escalated (process_frame (Some ear) e1 s) = guard_escalated s"
    and "log_calls (process_frame None e2 (process_frame (Some ear) e1 s)) = log_calls s"
  using assms
  by (simp_all add: process_frame_def handle_no_face_def Let_def)

text \<open>
  Claim C1 says that re-detecting a face after a guard alert resets \<open>guard_escalated\<close> and
  logs exactly one \<open>ALERT_CLEARED\<close> for the episode.  The guard is away for 70 s (alert
  and escalation), is seen with open eyes at 71 s and is out of view again at 72 s: the
  flag is still set after the face frame, it is reset by the frame at 72 s, and no
  \<open>ALERT_CLEARED\<close> is logged or written at all.
\<close>

theorem face_return_no_alert_cleared:
  "guard_escalated (run_frames [(None, quiet_env 70)] guard_logging) \<and>
   alert_active (run_frames [(None, quiet_env 70)] guard_logging) \<and>
   guard_escalated (run_frames [(None, quiet_env 70), (Some 0.3, quiet_env 71)] guard_logging) \<and>
   \<not> alert_active (run_frames [(None, quiet_env 70), (Some 0.3, quiet_env 71)] guard_logging) \<and>
   \<not> guard_escalated
       (run_frames [(None, quiet_env 70), (Some 0.3, quiet_env 71), (None, quiet_env 72)]
          guard_logging) \<and>
   log_calls (run_frames [(None, quiet_env 70), (Some 0.3, quiet_env 71), (None, quiet_env 72)]
                guard_logging) = [''NO_FACE_ALERT'', ''ALERT_ESCALATED''] \<and>
   files (run_frames [(None, quiet_env 70), (Some 0.3, quiet_env 71), (None, quiet_env 72)]
            guard_logging) ''guard.csv'' =
     Some [[''timestamp'', ''event''],
           [''2025-01-01 00:00:00'', ''NO_FACE_ALERT''],
           [''2025-01-01 00:00:00'', ''ALERT_ESCALATED'']]"
  by (simp add: guard_logging_def process_frame_def handle_no_face_def
      handle_audio_alert_def maybe_log_event_def header_row_def init_def quiet_env_def Let_def)

section \<open>The event logger\<close>

lemma log_events_path [simp]: "log_path (log_events evs s) = log_path s"
  by (induction evs s rule: log_events.induct) simp_all

text \<open>
  A failing call on a fresh path: no file when \<open>open\<close> raises, an empty file when the
  header write raises (and the next call then writes its row with no header), the header
  alone when the row write raises.
\<close>

lemma failed_write_leaves_file:
  assumes "log_path s = Some p" "p \<noteq> []" "files s p = None"
  shows "files (maybe_log_event ev st OpenRaises s) p = None"
    and "files (maybe_log_event ev st HeaderWriteRaises s) p = Some []"
    and "files (maybe_log_event ev st RowWriteRaises s) p = Some [header_row]"
    and "files (maybe_log_event ev' st' IoOk (maybe_log_event ev st HeaderWriteRaises s)) p =
           Some [[st', ev']]"
  using assms by (simp_all add: maybe_log_event_def Let_def)

lemma maybe_log_event_file:
  assumes "log_path s = Some p" "p \<noteq> []"
  shows "files (maybe_log_event event stamp IoOk s) p =
           Some ((case files s p of None \<Rightarrow> [header_row] | Some rows \<Rightarrow> rows) @ [[stamp, event]])"
  using assms by (simp add: maybe_log_event_def Let_def split: option.split)

lemma log_events_existing:
  assumes "log_path s = Some p" "p \<noteq> []" "files s p = Some rows" "list_all io_ok evs"
  shows "files (log_events evs s) p = Some (rows @ map data_row evs)"
  using assms
proof (induction evs arbitrary: s rows)
  case Nil
  then show ?case by simp
next
  case (Cons c evs)
  obtain event stamp where c: "c = (event, stamp, IoOk)"
    using Cons.prems(4) by (cases c) (auto simp: io_ok_def)
  let ?s = "maybe_log_event event stamp IoOk s"
  have f: "files ?s p = Some (rows @ [[stamp, event]])"
    using maybe_log_event_file [OF Cons.prems(1,2)] Cons.prems(3) by simp
  have "files (log_events evs ?s) p = Some ((rows @ [[stamp, event]]) @ map data_row evs)"
    using Cons.prems(1,2,4) f by (intro Cons.IH) simp_all
  then show ?case by (simp add: c data_row_def)
qed

text \<open>
  Claim C9 says that appending N events to a fresh log path gives a file of one header row
  and N data rows.  The header is written by the first call that writes a row, so for
  N = 0 there is no file.
\<close>

theorem no_events_no_file_counterexample:
  "log_path logging_start = Some ''events.csv'' \<and>
   files logging_start ''events.csv'' = None \<and>
   files (log_events [] logging_start) ''events.csv'' = None"
  by (simp add: logging_start_def init_def)

text \<open>
  Claim C9, amended: appending N events, N at least 1, with a configured non-empty log path
  whose file does not exist and with no failing file operation, gives a file that holds
  exactly the header row \<open>timestamp,event\<close> followed by the N data rows in order, each of
  the two fields time stamp and event (for N = 0 no file is created).
\<close>

theorem fresh_log_rows:
  assumes "log_path s = Some p" "p \<noteq> []" "files s p = None"
    and "evs \<noteq> []" "list_all io_ok evs"
  shows "files (log_events evs s) p = Some (header_row # map data_row evs) \<and>
         length (header_row # map data_row evs) = 1 + length evs \<and>
         list_all (\<lambda>row. length row = 2) (map data_row evs)"
proof -
  obtain c rest where evs: "evs = c # rest" using assms(4) by (cases evs) auto
  obtain event stamp where c: "c = (event, stamp, IoOk)"
    using assms(5) evs by (cases c) (auto simp: io_ok_def)
  let ?s = "maybe_log_event event stamp IoOk s"
  have f: "files ?s p = Some ([header_row] @ [[stamp, event]])"
    using maybe_log_event_file [OF assms(1,2)] assms(3) by simp
  have "files (log_events rest ?s) p = Some (([header_row] @ [[stamp, event]]) @ map data_row rest)"
    using assms(1,2,5) f evs by (intro log_events_existing) simp_all
  then have "files (log_events evs s) p = Some (header_row # map data_row evs)"
    by (simp add: evs c data_row_def)
  moreover have "list_all (\<lambda>row. length row = 2) (map data_row evs)"
    by (auto simp: list_all_iff data_row_def)
  ultimately show ?thesis by simp
qed

theorem fresh_log_rows_witness:
  "log_path logging_start = Some ''events.csv'' \<and> ''events.csv'' \<noteq> [] \<and>
   files logging_start ''events.csv'' = None \<and>
   three_events \<noteq> [] \<and> list_all io_ok three_events \<and>
   files (log_events three_events logging_start) ''events.csv'' =
     Some [[''timestamp'', ''event''],
           [''2025-01-01 00:00:10'', ''NO_FACE_ALERT''],
           [''2025-01-01 00:01:10'', ''ALERT_ESCALATED''],
           [''2025-01-01 00:01:12'', ''ALERT_CLEARED'']]"
proof -
  have h: "log_path logging_start = Some ''events.csv''" "''events.csv'' \<noteq> []"
    "files logging_start ''events.csv'' = None"
    by (simp_all add: logging_start_def init_def)
  have e: "three_events \<noteq> []" "list_all io_ok three_events"
    by (simp_all add: three_events_def io_ok_def)
  have r: "header_row # map data_row three_events =
     [[''timestamp'', ''event''],
           [''2025-01-01 00:00:10'', ''NO_FACE_ALERT''],
           [''2025-01-01 00:01:10'', ''ALERT_ESCALATED''],
           [''2025-01-01 00:01:12'', ''ALERT_CLEARED'']]"
    by (simp add: three_events_def header_row_def data_row_def)
  from fresh_log_rows [OF h e] h e r show ?thesis by simp
qed

section \<open>The flag \<open>guard_alert_active\<close>\<close>

lemma handle_no_face_guard_alert_active:
  "\<not> guard_alert_active s \<Longrightarrow> \<not> guard_alert_active (handle_no_face e s)"
  by (simp add: handle_no_face_def Let_def)

lemma process_frame_guard_alert_active:
  "\<not> guard_alert_active s \<Longrightarrow> \<not> guard_alert_active (process_frame lm e s)"
  by (simp add: process_frame_def Let_def handle_no_face_guard_alert_active split: option.split)

lemma run_frames_guard_alert_active:
  "\<not> guard_alert_active s \<Longrightarrow> \<not> guard_alert_active (run_frames fs s)"
proof (induction fs arbitrary: s)
  case Nil
  then show ?case by simp
next
  case (Cons f fs)
  obtain lm e where f: "f = (lm, e)" by (cases f)
  show ?case
    using Cons.IH [OF process_frame_guard_alert_active [OF Cons.prems, of lm e]] by (simp add: f)
qed

text \<open>
  Claim C10: \<open>guard_alert_active\<close> is false after \<open>__init__\<close>, and no method sets it to
  true (the only assignment, line 234, writes false), so it is false after every run of
  frames from the initial object; there the test of line 231 is the test of
  \<open>alert_active\<close> alone.
\<close>

theorem guard_alert_active_never_set:
  "\<not> guard_alert_active (run_frames fs (init gm lp t0 fs0)) \<and>
   ((alert_active (run_frames fs (init gm lp t0 fs0)) \<or>
     guard_alert_active (run_frames fs (init gm lp t0 fs0)))
    = alert_active (run_frames fs (init gm lp t0 fs0)))"
proof -
  have "\<not> guard_alert_active (init gm lp t0 fs0)"
    by (simp add: init_def)
  then have "\<not> guard_alert_active (run_frames fs (init gm lp t0 fs0))"
    by (rule run_frames_guard_alert_active)
  then show ?thesis by simp
qed

end
